theory Spec2Isabelle
  imports Complex_Main "HOL-Library.Sublist" "HOL-Library.AList"
begin

section \<open>Data model\<close>

text \<open>
  A cell of a pandas frame is a missing value, a number or a text. The scrapers never do
  arithmetic on a cell, they only parse, compare and replace cells, so numbers are
  rationals here and the rounding of floating point plays no part.
\<close>

datatype cell = NaN | Num rat | Str string

text \<open>
  A row is the list of its labelled cells in the order of the columns; a frame is its
  column index and its rows in order. \<open>pd.read_html\<close> renames repeated headers apart, so
  a label is repeated only after the renaming of a table that carries an abbreviation
  beside its canonical name; the selection of columns then keeps both columns, as pandas
  does. Reading one column, assigning to it and \<open>pd.concat\<close> are modelled for the column
  that comes first under a label, which is the column when the labels are distinct.
\<close>

type_synonym row = "(string \<times> cell) list"

record dataframe =
  columns :: "string list"
  rows :: "row list"

definition cell_of :: "row \<Rightarrow> string \<Rightarrow> cell" where
  "cell_of r c = (case map_of r c of Some v \<Rightarrow> v | None \<Rightarrow> NaN)"

definition column :: "dataframe \<Rightarrow> string \<Rightarrow> cell list" where
  \<comment> \<open>\<open>df[c]\<close>, the series of one column\<close>
  "column df c = map (\<lambda>r. cell_of r c) (rows df)"

definition set_column :: "string \<Rightarrow> cell list \<Rightarrow> dataframe \<Rightarrow> dataframe" where
  \<comment> \<open>\<open>df[c] = vals\<close>: an existing column is overwritten in place, a new one is appended\<close>
  "set_column c vals df =
     \<lparr>columns = (if c \<in> set (columns df) then columns df else columns df @ [c]),
      rows = map (\<lambda>(r, v). AList.update c v r) (zip (rows df) vals)\<rparr>"

definition select_columns :: "string list \<Rightarrow> dataframe \<Rightarrow> dataframe" where
  \<comment> \<open>\<open>df[cols]\<close> for a list of labels that the frame has: for each label in turn, every
      column of that label\<close>
  "select_columns cols df =
     \<lparr>columns = concat (map (\<lambda>c. filter (\<lambda>d. d = c) (columns df)) cols),
      rows = map (\<lambda>r. concat (map (\<lambda>c. filter (\<lambda>(k, v). k = c) r) cols)) (rows df)\<rparr>"

section \<open>The remote site\<close>

text \<open>
  What the scrapers see of a table element: its \<open>id\<close>, its classes, the frame that
  \<open>pd.read_html(str(table))[0]\<close> makes of it (\<open>None\<close> when that call raises), and the
  stripped text of the player cell of its first body row (\<open>None\<close> when the body, the row
  or the cell is missing, each of which ends \<open>get_mvp_winner\<close> with \<open>None\<close>).
\<close>

record html_table =
  table_id :: string
  table_class :: "string list"
  read_html :: "dataframe option"
  first_row_player :: "string option"

type_synonym document = "html_table list"

datatype endpoint = Awards | PerGame | Advanced

text \<open>
  The three URL patterns are \<open>/awards/awards_{year}.html\<close>,
  \<open>/leagues/NBA_{year}_per_game.html\<close> and \<open>/leagues/NBA_{year}_advanced.html\<close>. A site
  answers a request with a parsed document or not at all (any exception of the request
  makes \<open>get_page_content\<close> return \<open>None\<close>).
\<close>

type_synonym site = "endpoint \<Rightarrow> int \<Rightarrow> document option"

text \<open>
  The effects of one season's run, in the order they happen: the requests sent and the
  call of \<open>pd.merge\<close>.
\<close>

datatype event = Fetch endpoint int | Merge int

definition get_page_content :: "site \<Rightarrow> endpoint \<Rightarrow> int \<Rightarrow> document option \<times> event list" where
  "get_page_content web ep year = (web ep year, [Fetch ep year])"

definition find_table_by_id :: "string \<Rightarrow> document \<Rightarrow> html_table option" where
  "find_table_by_id i doc = find (\<lambda>t. table_id t = i) doc"

definition find_table_by_class :: "string \<Rightarrow> document \<Rightarrow> html_table option" where
  "find_table_by_class c doc = find (\<lambda>t. c \<in> set (table_class t)) doc"

definition get_mvp_winner :: "site \<Rightarrow> int \<Rightarrow> string option \<times> event list" where
  "get_mvp_winner web year =
     (case get_page_content web Awards year of
        (None, evs) \<Rightarrow> (None, evs)
      | (Some soup, evs) \<Rightarrow>
          (case find_table_by_id ''mvp'' soup of
             None \<Rightarrow> (None, evs)
           | Some mvp_table \<Rightarrow> (first_row_player mvp_table, evs)))"

section \<open>Table extraction and column normalisation\<close>

definition notna :: "cell \<Rightarrow> bool" where
  "notna c = (c \<noteq> NaN)"

fun is_str :: "cell \<Rightarrow> bool" where
  "is_str (Str s) = True"
| "is_str _ = False"

fun is_num :: "cell \<Rightarrow> bool" where
  "is_num (Num x) = True"
| "is_num _ = False"

fun str_contains :: "string \<Rightarrow> string \<Rightarrow> bool" where
  \<comment> \<open>\<open>pat in s\<close>; the pattern \<open>Player\<close> has no regular-expression operator\<close>
  "str_contains pat [] = (pat = [])"
| "str_contains pat (c # cs) = (prefix pat (c # cs) \<or> str_contains pat cs)"

fun series_str_contains :: "string \<Rightarrow> cell \<Rightarrow> bool option" where
  \<comment> \<open>an element of \<open>series.str.contains(pat)\<close>: missing for a cell that is no text\<close>
  "series_str_contains pat (Str s) = Some (str_contains pat s)"
| "series_str_contains pat _ = None"

definition object_dtype :: "cell list \<Rightarrow> bool" where
  \<comment> \<open>a column read from HTML has dtype object when it holds a text or has no row\<close>
  "object_dtype col = (col = [] \<or> list_ex is_str col)"

definition drop_non_data_rows :: "dataframe \<Rightarrow> dataframe option" where
  \<comment> \<open>\<open>df = df[df['Player'].notna()]; df = df[~df['Player'].str.contains('Player')]\<close>.
      A missing column raises KeyError, the \<open>.str\<close> accessor raises on a numeric column,
      and \<open>~\<close> raises on a mask with a missing element; the caller turns each into
      \<open>None\<close>.\<close>
  "drop_non_data_rows df =
     (if ''Player'' \<notin> set (columns df) then None
      else let df1 = df\<lparr>rows := filter (\<lambda>r. notna (cell_of r ''Player'')) (rows df)\<rparr>
           in if \<not> object_dtype (column df ''Player'') then None
              else if list_ex (\<lambda>r. series_str_contains ''Player'' (cell_of r ''Player'') = None) (rows df1)
                   then None
              else Some (df1\<lparr>rows := filter (\<lambda>r. series_str_contains ''Player'' (cell_of r ''Player'') = Some False)
                                          (rows df1)\<rparr>))"

definition rename_column :: "string \<Rightarrow> string \<Rightarrow> dataframe \<Rightarrow> dataframe" where
  "rename_column old_col new_col df =
     \<lparr>columns = map (\<lambda>c. if c = old_col then new_col else c) (columns df),
      rows = map (map (\<lambda>(k, v). (if k = old_col then new_col else k, v))) (rows df)\<rparr>"

fun rename_columns :: "(string \<times> string) list \<Rightarrow> dataframe \<Rightarrow> dataframe" where
  "rename_columns [] df = df"
| "rename_columns ((old_col, new_col) # m) df =
     rename_columns m (if old_col \<in> set (columns df) then rename_column old_col new_col df else df)"

definition normalize_columns ::
  "(string \<times> string) list \<Rightarrow> string list \<Rightarrow> dataframe \<Rightarrow> dataframe option" where
  \<comment> \<open>the renaming loop and the selection of the wanted columns that are there\<close>
  "normalize_columns column_mapping wanted df =
     (let df' = rename_columns column_mapping df;
          available_columns = filter (\<lambda>c. c \<in> set (columns df')) wanted
      in if available_columns = [] then None
         else Some (select_columns available_columns df'))"

definition basic_column_mapping :: "(string \<times> string) list" where
  "basic_column_mapping =
     [(''Tm'', ''Team''), (''Pos'', ''Position''), (''G'', ''Games''), (''MP'', ''Minutes''),
      (''PTS'', ''Points''), (''TRB'', ''Rebounds''), (''AST'', ''Assists''),
      (''STL'', ''Steals''), (''BLK'', ''Blocks''), (''TOV'', ''Turnovers''),
      (''FG%'', ''FG_Pct''), (''3P%'', ''3P_Pct''), (''FT%'', ''FT_Pct'')]"

definition basic_columns :: "string list" where
  "basic_columns =
     [''Player'', ''Team'', ''Position'', ''Season'', ''Games'', ''Minutes'', ''Points'',
      ''Rebounds'', ''Assists'', ''Steals'', ''Blocks'', ''Turnovers'',
      ''FG_Pct'', ''3P_Pct'', ''FT_Pct'']"

definition advanced_column_mapping :: "(string \<times> string) list" where
  "advanced_column_mapping =
     [(''PER'', ''Player_Efficiency_Rating''), (''WS'', ''Win_Shares''),
      (''BPM'', ''Box_Plus_Minus''), (''USG%'', ''Usage_Rate''),
      (''VORP'', ''Value_Over_Replacement''), (''WS/48'', ''Win_Shares_Per_48'')]"

definition advanced_columns :: "string list" where
  "advanced_columns =
     [''Player'', ''Player_Efficiency_Rating'', ''Win_Shares'', ''Box_Plus_Minus'',
      ''Usage_Rate'', ''Value_Over_Replacement'', ''Win_Shares_Per_48'']"

definition extract_stats ::
  "(string \<times> string) list \<Rightarrow> string list \<Rightarrow> html_table \<Rightarrow> dataframe option" where
  \<comment> \<open>the \<open>try\<close> block that \<open>get_basic_stats\<close> and \<open>get_advanced_stats\<close> share\<close>
  "extract_stats column_mapping wanted stats_table =
     (case read_html stats_table of
        None \<Rightarrow> None
      | Some df \<Rightarrow>
          (case drop_non_data_rows df of
             None \<Rightarrow> None
           | Some df1 \<Rightarrow> normalize_columns column_mapping wanted df1))"

definition get_basic_stats :: "site \<Rightarrow> int \<Rightarrow> dataframe option \<times> event list" where
  "get_basic_stats web year =
     (case get_page_content web PerGame year of
        (None, evs) \<Rightarrow> (None, evs)
      | (Some soup, evs) \<Rightarrow>
          (case find_table_by_id ''per_game_stats'' soup of
             None \<Rightarrow> (None, evs)
           | Some stats_table \<Rightarrow>
               (extract_stats basic_column_mapping basic_columns stats_table, evs)))"

definition get_advanced_stats :: "site \<Rightarrow> int \<Rightarrow> dataframe option \<times> event list" where
  "get_advanced_stats web year =
     (case get_page_content web Advanced year of
        (None, evs) \<Rightarrow> (None, evs)
      | (Some soup, evs) \<Rightarrow>
          (case find_table_by_class ''stats_table'' soup of
             None \<Rightarrow> (None, evs)
           | Some stats_table \<Rightarrow>
               (extract_stats advanced_column_mapping advanced_columns stats_table, evs)))"

section \<open>One season\<close>

definition merge_left :: "dataframe \<Rightarrow> dataframe \<Rightarrow> dataframe option" where
  \<comment> \<open>\<open>pd.merge(left, right, on='Player', how='left')\<close>: the rows of \<open>left\<close> in order, each
      once for every row of \<open>right\<close> with the same key (in the order of \<open>right\<close>), or once
      with the columns of \<open>right\<close> missing when no row has the key. A column of both
      frames other than the key gets the suffix \<open>_x\<close> or \<open>_y\<close>. A frame without the key
      column raises KeyError.\<close>
  "merge_left left right =
     (if ''Player'' \<notin> set (columns left) \<or> ''Player'' \<notin> set (columns right) then None
      else
        let lname = (\<lambda>c. if c \<noteq> ''Player'' \<and> c \<in> set (columns right) then c @ ''_x'' else c);
            rname = (\<lambda>c. if c \<in> set (columns left) then c @ ''_y'' else c);
            rcols = filter (\<lambda>c. c \<noteq> ''Player'') (columns right);
            lpart = (\<lambda>a. map (\<lambda>(k, v). (lname k, v)) a);
            rpart = (\<lambda>b. map (\<lambda>c. (rname c, cell_of b c)) rcols);
            missing = map (\<lambda>c. (rname c, NaN)) rcols
        in Some
          \<lparr>columns = map lname (columns left) @ map rname rcols,
           rows = concat (map (\<lambda>a.
                     (case filter (\<lambda>b. cell_of b ''Player'' = cell_of a ''Player'') (rows right) of
                        [] \<Rightarrow> [lpart a @ missing]
                      | matches \<Rightarrow> map (\<lambda>b. lpart a @ rpart b) matches))
                   (rows left))\<rparr>)"

definition mvp_flag :: "string \<Rightarrow> cell \<Rightarrow> cell" where
  \<comment> \<open>\<open>lambda x: 1 if x == mvp_winner else 0\<close>\<close>
  "mvp_flag mvp_winner x = (if x = Str mvp_winner then Num 1 else Num 0)"

definition stamp_season :: "int \<Rightarrow> dataframe \<Rightarrow> dataframe" where
  \<comment> \<open>\<open>merged_stats['Season'] = year\<close>\<close>
  "stamp_season year df = set_column ''Season'' (map (\<lambda>r. Num (of_int year)) (rows df)) df"

definition scrape_season :: "site \<Rightarrow> int \<Rightarrow> dataframe option \<times> event list" where
  \<comment> \<open>the award-tracking scraper\<close>
  "scrape_season web year =
     (case get_mvp_winner web year of
        (None, evs1) \<Rightarrow> (None, evs1)
      | (Some mvp_winner, evs1) \<Rightarrow>
          (case get_basic_stats web year of
             (None, evs2) \<Rightarrow> (None, evs1 @ evs2)
           | (Some basic_stats, evs2) \<Rightarrow>
               (case get_advanced_stats web year of
                  (None, evs3) \<Rightarrow> (None, evs1 @ evs2 @ evs3)
                | (Some advanced_stats, evs3) \<Rightarrow>
                    (case merge_left basic_stats advanced_stats of
                       None \<Rightarrow> (None, evs1 @ evs2 @ evs3 @ [Merge year])
                     | Some merged_stats \<Rightarrow>
                         (Some (stamp_season year
                                  (set_column ''MVP''
                                     (map (mvp_flag mvp_winner) (column merged_stats ''Player''))
                                     merged_stats)),
                          evs1 @ evs2 @ evs3 @ [Merge year])))))"

definition scrape_season_2025 :: "site \<Rightarrow> int \<Rightarrow> dataframe option \<times> event list" where
  \<comment> \<open>\<open>scrape_season\<close> of the single-season scraper, which looks no award up\<close>
  "scrape_season_2025 web year =
     (case get_basic_stats web year of
        (None, evs2) \<Rightarrow> (None, evs2)
      | (Some basic_stats, evs2) \<Rightarrow>
          (case get_advanced_stats web year of
             (None, evs3) \<Rightarrow> (None, evs2 @ evs3)
           | (Some advanced_stats, evs3) \<Rightarrow>
               (case merge_left basic_stats advanced_stats of
                  None \<Rightarrow> (None, evs2 @ evs3 @ [Merge year])
                | Some merged_stats \<Rightarrow>
                    (Some (stamp_season year merged_stats), evs2 @ evs3 @ [Merge year]))))"

section \<open>Aggregation and cleanup\<close>

fun ordered_union :: "string list \<Rightarrow> string list" where
  \<comment> \<open>the labels in the order of their first appearance\<close>
  "ordered_union [] = []"
| "ordered_union (c # cs) = c # ordered_union (filter (\<lambda>d. d \<noteq> c) cs)"

definition reindex_row :: "string list \<Rightarrow> row \<Rightarrow> row" where
  "reindex_row cols r = map (\<lambda>c. (c, cell_of r c)) cols"

definition concat_frames :: "dataframe list \<Rightarrow> dataframe" where
  \<comment> \<open>\<open>pd.concat(all_data, ignore_index=True)\<close>: the union of the columns, the rows of the
      frames one after the other, a column that a frame lacks missing in its rows\<close>
  "concat_frames dfs =
     (let cols = ordered_union (concat (map columns dfs))
      in \<lparr>columns = cols, rows = concat (map (\<lambda>df. map (reindex_row cols) (rows df)) dfs)\<rparr>)"

fun fill_zero :: "cell \<Rightarrow> cell" where
  "fill_zero NaN = Num 0"
| "fill_zero c = c"

definition fillna :: "dataframe \<Rightarrow> dataframe" where
  \<comment> \<open>\<open>df.fillna(0)\<close>\<close>
  "fillna df = df\<lparr>rows := map (map (\<lambda>(k, v). (k, fill_zero v))) (rows df)\<rparr>"

fun coerce :: "(string \<Rightarrow> rat option) \<Rightarrow> cell \<Rightarrow> cell" where
  \<comment> \<open>an element under \<open>errors='coerce'\<close>: a text that is no number becomes missing\<close>
  "coerce parse NaN = NaN"
| "coerce parse (Num x) = Num x"
| "coerce parse (Str s) = (case parse s of Some x \<Rightarrow> Num x | None \<Rightarrow> NaN)"

definition to_numeric :: "(string \<Rightarrow> rat option) \<Rightarrow> cell list \<Rightarrow> cell list" where
  \<comment> \<open>\<open>pd.to_numeric(series, errors='coerce')\<close>, given how a text reads as a number\<close>
  "to_numeric parse series = map (coerce parse) series"

definition numeric_columns :: "string list" where
  "numeric_columns =
     [''Minutes'', ''Points'', ''Rebounds'', ''Assists'', ''Steals'',
      ''Blocks'', ''Turnovers'', ''FG_Pct'', ''3P_Pct'', ''FT_Pct'',
      ''Player_Efficiency_Rating'', ''Win_Shares'', ''Box_Plus_Minus'',
      ''Usage_Rate'', ''Value_Over_Replacement'', ''Win_Shares_Per_48'']"

definition coerce_column :: "(string \<Rightarrow> rat option) \<Rightarrow> string \<Rightarrow> dataframe \<Rightarrow> dataframe" where
  \<comment> \<open>the body of the loop over \<open>numeric_columns\<close>\<close>
  "coerce_column parse col df =
     (if col \<in> set (columns df) then set_column col (to_numeric parse (column df col)) df
      else df)"

definition coerce_numeric_columns :: "(string \<Rightarrow> rat option) \<Rightarrow> dataframe \<Rightarrow> dataframe" where
  "coerce_numeric_columns parse df = fold (coerce_column parse) numeric_columns df"

fun collect_seasons :: "site \<Rightarrow> int list \<Rightarrow> dataframe list" where
  \<comment> \<open>the loop that fills \<open>all_data\<close>: a failed season is skipped\<close>
  "collect_seasons web [] = []"
| "collect_seasons web (year # years) =
     (case fst (scrape_season web year) of
        None \<Rightarrow> collect_seasons web years
      | Some season_data \<Rightarrow> season_data # collect_seasons web years)"

definition scrape_all_seasons ::
  "(string \<Rightarrow> rat option) \<Rightarrow> site \<Rightarrow> int \<Rightarrow> int \<Rightarrow> dataframe option" where
  "scrape_all_seasons parse web start_year end_year =
     (let all_data = collect_seasons web [start_year..end_year]
      in if all_data = [] then None
         else Some (coerce_numeric_columns parse (fillna (concat_frames all_data))))"

definition season_first :: "dataframe \<Rightarrow> dataframe" where
  \<comment> \<open>\<open>cols.remove('Season'); cols = ['Season'] + cols; df = df[cols]\<close>\<close>
  "season_first df = select_columns (''Season'' # remove1 ''Season'' (columns df)) df"

definition main_2025 :: "(string \<Rightarrow> rat option) \<Rightarrow> site \<Rightarrow> dataframe option" where
  \<comment> \<open>the frame that the single-season scraper writes\<close>
  "main_2025 parse web =
     (case fst (scrape_season_2025 web 2025) of
        None \<Rightarrow> None
      | Some season_data \<Rightarrow> Some (coerce_numeric_columns parse (fillna (season_first season_data))))"

definition main_mvp :: "(string \<Rightarrow> rat option) \<Rightarrow> site \<Rightarrow> dataframe option" where
  \<comment> \<open>the frame that the award-tracking scraper writes\<close>
  "main_mvp parse web =
     (case scrape_all_seasons parse web 1981 2024 of
        None \<Rightarrow> None
      | Some final_df \<Rightarrow> Some (season_first final_df))"

subsection \<open>A reader of decimal texts\<close>

text \<open>
  The general results hold for every way to read a text as a number. The examples use
  this reader of plain decimals: an optional minus sign, digits, an optional point and
  digits.
\<close>

definition digit_of :: "char \<Rightarrow> nat option" where
  \<comment> \<open>the value of a decimal digit, by its place among the ten\<close>
  "digit_of c = map_of (zip ''0123456789'' [0 ..< 10]) c"

fun nat_of_digits :: "string \<Rightarrow> nat \<Rightarrow> nat option" where
  "nat_of_digits [] acc = Some acc"
| "nat_of_digits (c # cs) acc =
     (case digit_of c of None \<Rightarrow> None | Some d \<Rightarrow> nat_of_digits cs (10 * acc + d))"

definition unsigned_decimal :: "string \<Rightarrow> rat option" where
  "unsigned_decimal s =
     (let ip = takeWhile (\<lambda>c. c \<noteq> CHR ''.'') s;
          fp = drop 1 (dropWhile (\<lambda>c. c \<noteq> CHR ''.'') s)
      in if ip = [] \<and> fp = [] then None
         else (case (nat_of_digits ip 0, nat_of_digits fp 0) of
                 (Some a, Some b) \<Rightarrow> Some (of_nat a + of_nat b / 10 ^ length fp)
               | _ \<Rightarrow> None))"

definition parse_decimal :: "string \<Rightarrow> rat option" where
  "parse_decimal s =
     (case s of
        [] \<Rightarrow> None
      | c # t \<Rightarrow> if c = CHR ''-'' then map_option uminus (unsigned_decimal t)
                 else unsigned_decimal s)"

section \<open>Views of the results\<close>

text \<open>
  What one row of a season becomes in the aggregate: it is laid out on the columns of the
  aggregate, filled, and its numeric columns are coerced.
\<close>

definition coerce_row :: "(string \<Rightarrow> rat option) \<Rightarrow> string list \<Rightarrow> string list \<Rightarrow> row \<Rightarrow> row" where
  "coerce_row parse cols cs r =
     fold (\<lambda>c r. if c \<in> set cols then AList.update c (coerce parse (cell_of r c)) r else r) cs r"

definition output_row :: "(string \<Rightarrow> rat option) \<Rightarrow> string list \<Rightarrow> row \<Rightarrow> row" where
  "output_row parse cols r =
     coerce_row parse cols numeric_columns (map (\<lambda>(k, v). (k, fill_zero v)) (reindex_row cols r))"

definition season_rows :: "site \<Rightarrow> int \<Rightarrow> row list" where
  \<comment> \<open>the merged records of a season, none when the season fails\<close>
  "season_rows web year = (case fst (scrape_season web year) of None \<Rightarrow> [] | Some df \<Rightarrow> rows df)"

definition season_number :: "row \<Rightarrow> rat" where
  "season_number r = (case cell_of r ''Season'' of Num x \<Rightarrow> x | _ \<Rightarrow> 0)"

definition matches :: "dataframe \<Rightarrow> row \<Rightarrow> row list" where
  \<comment> \<open>the rows of a frame with the key of a given row\<close>
  "matches right a = filter (\<lambda>b. cell_of b ''Player'' = cell_of a ''Player'') (rows right)"

definition left_join_rows :: "dataframe \<Rightarrow> row \<Rightarrow> row list" where
  \<comment> \<open>Following the spec's words, the left join of one basic row onto the advanced
      records: the row once for every advanced record of the same \<open>Player\<close>, in their
      order, with the advanced fields of that record, and once with the advanced fields
      missing when no record matches.\<close>
  "left_join_rows right a =
     (case matches right a of
        [] \<Rightarrow> [a @ map (\<lambda>c. (c, NaN)) (filter (\<lambda>c. c \<noteq> ''Player'') (columns right))]
      | ms \<Rightarrow> map (\<lambda>b. a @ map (\<lambda>c. (c, cell_of b c))
                              (filter (\<lambda>c. c \<noteq> ''Player'') (columns right))) ms)"

definition frame_of :: "dataframe option \<Rightarrow> dataframe" where
  \<comment> \<open>the frame of a result, the empty frame when there is none\<close>
  "frame_of res = (case res of None \<Rightarrow> \<lparr>columns = [], rows = []\<rparr> | Some df \<Rightarrow> df)"


definition result_column :: "dataframe option \<Rightarrow> string \<Rightarrow> cell list" where
  "result_column res c = (case res of None \<Rightarrow> [] | Some df \<Rightarrow> column df c)"

section \<open>Example tables\<close>

definition per_game_2022 :: dataframe where
  "per_game_2022 =
     \<lparr>columns = [''Player'', ''Pos'', ''Tm'', ''G'', ''MP'', ''PTS''],
      rows =
        [[(''Player'', Str ''Nikola Jokic''), (''Pos'', Str ''C''), (''Tm'', Str ''DEN''),
          (''G'', Str ''74''), (''MP'', Str ''33.5''), (''PTS'', Str ''27.1'')],
         [(''Player'', Str ''Player''), (''Pos'', Str ''Pos''), (''Tm'', Str ''Tm''),
          (''G'', Str ''G''), (''MP'', Str ''MP''), (''PTS'', Str ''PTS'')],
         [(''Player'', Str ''Joel Embiid''), (''Pos'', Str ''C''), (''Tm'', NaN),
          (''G'', Str ''68''), (''MP'', NaN), (''PTS'', Str ''DNP'')]]\<rparr>"

definition advanced_2022 :: dataframe where
  "advanced_2022 =
     \<lparr>columns = [''Player'', ''PER'', ''WS''],
      rows = [[(''Player'', Str ''Nikola Jokic''), (''PER'', Str ''32.8''), (''WS'', Str ''15.2'')]]\<rparr>"

definition per_game_2024 :: dataframe where
  "per_game_2024 =
     \<lparr>columns = [''Player'', ''Team'', ''PTS''],
      rows =
        [[(''Player'', Str ''James Harden''), (''Team'', Str ''LAC''), (''PTS'', Str ''16.6'')],
         [(''Player'', Str ''Jalen Brunson''), (''Team'', Str ''NYK''), (''PTS'', Str ''28.7'')]]\<rparr>"

definition advanced_2024 :: dataframe where
  \<comment> \<open>a player traded in the season has one row for each of his teams\<close>
  "advanced_2024 =
     \<lparr>columns = [''Player'', ''PER''],
      rows =
        [[(''Player'', Str ''James Harden''), (''PER'', Str ''20.1'')],
         [(''Player'', Str ''James Harden''), (''PER'', Str ''18.3'')]]\<rparr>"

definition stats_page :: "string \<Rightarrow> dataframe \<Rightarrow> document" where
  "stats_page i df =
     [\<lparr>table_id = i, table_class = [''sortable'', ''stats_table''],
       read_html = Some df, first_row_player = None\<rparr>]"

definition awards_page :: "string \<Rightarrow> document" where
  "awards_page winner =
     [\<lparr>table_id = ''mvp'', table_class = [''sortable'', ''stats_table''],
       read_html = None, first_row_player = Some winner\<rparr>]"

definition example_site :: site where
  \<comment> \<open>2022 and 2025 are complete, the awards page of 2023 cannot be fetched, the winner
      named for 2024 is in no row of that season, and no other year is there\<close>
  "example_site ep year =
     (if year = 2022 \<or> year = 2025 then
        (case ep of
           Awards \<Rightarrow> Some (awards_page ''Nikola Jokic'')
         | PerGame \<Rightarrow> Some (stats_page ''per_game_stats'' per_game_2022)
         | Advanced \<Rightarrow> Some (stats_page ''advanced'' advanced_2022))
      else if year = 2023 then
        (case ep of
           Awards \<Rightarrow> None
         | PerGame \<Rightarrow> Some (stats_page ''per_game_stats'' per_game_2022)
         | Advanced \<Rightarrow> Some (stats_page ''advanced'' advanced_2022))
      else if year = 2024 then
        (case ep of
           Awards \<Rightarrow> Some (awards_page ''Shai Gilgeous-Alexander'')
         | PerGame \<Rightarrow> Some (stats_page ''per_game_stats'' per_game_2024)
         | Advanced \<Rightarrow> Some (stats_page ''advanced'' advanced_2024))
      else None)"



definition roster_with_playerson :: dataframe where
  "roster_with_playerson =
     \<lparr>columns = [''Player'', ''PTS''],
      rows =
        [[(''Player'', Str ''Nikola Jokic''), (''PTS'', Str ''27.1'')],
         [(''Player'', Str ''Player''), (''PTS'', Str ''PTS'')],
         [(''Player'', NaN), (''PTS'', NaN)],
         [(''Player'', Str ''Scott Playerson''), (''PTS'', Str ''3.2'')]]\<rparr>"

section \<open>The cleanup of the final frame\<close>

lemma coerce_idem: "coerce parse (coerce parse c) = coerce parse c"
  by (cases c) (auto split: option.splits)

lemma cell_of_update: "cell_of (AList.update c v r) k = (if k = c then v else cell_of r k)"
  by (simp add: cell_of_def update_conv')

lemma rows_set_column_map:
  "rows (set_column c (map g (rows df)) df) = map (\<lambda>r. AList.update c (g r) r) (rows df)"
  by (simp add: set_column_def zip_map2 zip_same_conv_map)

lemma columns_coerce_column: "columns (coerce_column parse c df) = columns df"
  by (simp add: coerce_column_def set_column_def)

lemma rows_coerce_column:
  "rows (coerce_column parse c df) =
     map (\<lambda>r. if c \<in> set (columns df) then AList.update c (coerce parse (cell_of r c)) r else r)
       (rows df)"
  by (simp add: coerce_column_def to_numeric_def column_def map_map comp_def
        rows_set_column_map[of c "\<lambda>r. coerce parse (cell_of r c)" df, simplified])

lemma coerce_row_Cons:
  "coerce_row parse cols (c # cs) r =
     coerce_row parse cols cs
       (if c \<in> set cols then AList.update c (coerce parse (cell_of r c)) r else r)"
  by (simp add: coerce_row_def)

lemma fold_coerce_column:
  "columns (fold (coerce_column parse) cs df) = columns df \<and>
   rows (fold (coerce_column parse) cs df) = map (coerce_row parse (columns df) cs) (rows df)"
proof (induction cs arbitrary: df)
  case Nil
  show ?case by (simp add: coerce_row_def)
next
  case (Cons c cs)
  show ?case
    by (simp add: Cons.IH columns_coerce_column rows_coerce_column coerce_row_def comp_def)
qed

lemma cell_of_coerce_row:
  "cell_of (coerce_row parse cols cs r) k =
     (if k \<in> set cs \<and> k \<in> set cols then coerce parse (cell_of r k) else cell_of r k)"
proof (induction cs arbitrary: r)
  case Nil
  show ?case by (simp add: coerce_row_def)
next
  case (Cons c cs)
  show ?case
    unfolding coerce_row_Cons by (simp add: Cons.IH cell_of_update coerce_idem)
qed

lemma map_of_coerce_row:
  "map_of (coerce_row parse cols cs r) k =
     (if k \<in> set cs \<and> k \<in> set cols then Some (coerce parse (cell_of r k)) else map_of r k)"
proof (induction cs arbitrary: r)
  case Nil
  show ?case by (simp add: coerce_row_def)
next
  case (Cons c cs)
  show ?case
    unfolding coerce_row_Cons by (simp add: Cons.IH cell_of_update coerce_idem update_conv')
qed

lemma coerce_numeric_columns_rows:
  "rows (coerce_numeric_columns parse df) =
     map (coerce_row parse (columns df) numeric_columns) (rows df)"
  by (simp add: coerce_numeric_columns_def fold_coerce_column)

lemma coerce_numeric_columns_columns: "columns (coerce_numeric_columns parse df) = columns df"
  by (simp add: coerce_numeric_columns_def fold_coerce_column)

lemma rows_cleanup:
  "rows (coerce_numeric_columns parse (fillna df)) =
     map (\<lambda>r. coerce_row parse (columns df) numeric_columns (map (\<lambda>(k, v). (k, fill_zero v)) r))
       (rows df)"
  by (simp add: coerce_numeric_columns_rows fillna_def comp_def)

lemma columns_cleanup: "columns (coerce_numeric_columns parse (fillna df)) = columns df"
  by (simp add: coerce_numeric_columns_columns fillna_def)

lemma map_of_fill:
  "map_of (map (\<lambda>(k, v). (k, fill_zero v)) r) k = map_option fill_zero (map_of r k)"
  by (simp add: map_of_map)

lemma coerce_row_fixed:
  "(\<And>c. c \<in> set cs \<Longrightarrow> c \<in> set cols \<Longrightarrow> map_of r c = Some (coerce parse (cell_of r c)))
   \<Longrightarrow> coerce_row parse cols cs r = r"
proof (induction cs)
  case Nil
  show ?case by (simp add: coerce_row_def)
next
  case (Cons c cs)
  have "(if c \<in> set cols then AList.update c (coerce parse (cell_of r c)) r else r) = r"
    using Cons.prems[of c] by (simp add: update_triv)
  then have "coerce_row parse cols (c # cs) r = coerce_row parse cols cs r"
    by (simp add: coerce_row_Cons)
  also have "\<dots> = r"
    using Cons.prems by (intro Cons.IH) simp_all
  finally show ?case .
qed

lemma coerce_row_idem:
  "coerce_row parse cols cs (coerce_row parse cols cs r) = coerce_row parse cols cs r"
  by (rule coerce_row_fixed) (simp add: map_of_coerce_row cell_of_coerce_row coerce_idem)

text \<open>
  What the cleanup makes of a cell in a column of \<open>numeric_columns\<close> that the frame
  has. The fill runs first and the coercion afterwards: a missing cell ends as 0, a number
  stays, a text ends as the number it reads as, and a text that reads as no number is
  made missing by the coercion, after the fill has run.
\<close>

lemma numeric_cell_after_cleanup:
  assumes "i < length (rows df)" and "col \<in> set numeric_columns" and "col \<in> set (columns df)"
    and "map_of (rows df ! i) col = Some v"
  shows "map_of (rows (coerce_numeric_columns parse (fillna df)) ! i) col =
           Some (case v of
                   NaN \<Rightarrow> Num 0
                 | Num x \<Rightarrow> Num x
                 | Str s \<Rightarrow> (case parse s of Some x \<Rightarrow> Num x | None \<Rightarrow> NaN))"
  using assms
  by (cases v) (simp_all add: rows_cleanup map_of_coerce_row map_of_fill cell_of_def)

text \<open>
  Claim C1. After the cleanup every cell of a numeric column is to hold a number, 0
  where the source value was absent or reads as no number, and no missing value is to
  remain. The code breaks the claim: the points of the second player of 2022 and of
  2025 are the text \<open>DNP\<close>, which reads as no number; the coercion makes the cell missing
  after the fill has run, and it is missing in the final frame of either scraper.
\<close>

theorem unparseable_points_left_missing:
  "result_column (fst (scrape_season example_site 2022)) ''Points'' = [Str ''27.1'', Str ''DNP''] \<and>
   parse_decimal ''DNP'' = None \<and>
   result_column (scrape_all_seasons parse_decimal example_site 2022 2022) ''Points''
     = [Num (271 / 10), NaN] \<and>
   result_column (main_2025 parse_decimal example_site) ''Points'' = [Num (271 / 10), NaN]"
  by code_simp

text \<open>
  Claim C8. Coercing a coerced series again changes nothing, a series without a text is
  left as it is, and the loop over the numeric columns run a second time leaves the frame
  as the first run made it.
\<close>

theorem coercion_idempotent:
  "to_numeric parse (to_numeric parse series) = to_numeric parse series \<and>
   (list_all (\<lambda>c. \<not> is_str c) series \<longrightarrow> to_numeric parse series = series) \<and>
   coerce_numeric_columns parse (coerce_numeric_columns parse df) = coerce_numeric_columns parse df"
proof -
  have a: "to_numeric parse (to_numeric parse series) = to_numeric parse series"
    by (simp add: to_numeric_def coerce_idem)
  have b: "list_all (\<lambda>c. \<not> is_str c) series \<longrightarrow> to_numeric parse series = series"
  proof
    assume h: "list_all (\<lambda>c. \<not> is_str c) series"
    have "\<And>c. \<not> is_str c \<Longrightarrow> coerce parse c = c"
      by (case_tac c) simp_all
    with h show "to_numeric parse series = series"
      by (simp add: to_numeric_def list_all_iff map_idI)
  qed
  have c: "coerce_numeric_columns parse (coerce_numeric_columns parse df)
             = coerce_numeric_columns parse df"
    by (rule dataframe.equality)
       (simp_all add: coerce_numeric_columns_rows coerce_numeric_columns_columns coerce_row_idem)
  from a b c show ?thesis by blast
qed

theorem coercion_idempotent_witness:
  "to_numeric parse_decimal (to_numeric parse_decimal [Str ''27.1'', NaN, Str ''DNP''])
     = to_numeric parse_decimal [Str ''27.1'', NaN, Str ''DNP''] \<and>
   list_all (\<lambda>c. \<not> is_str c) [Num (271 / 10), NaN, Num 0] \<and>
   to_numeric parse_decimal [Num (271 / 10), NaN, Num 0] = [Num (271 / 10), NaN, Num 0]"
  using coercion_idempotent [of parse_decimal "[Str ''27.1'', NaN, Str ''DNP'']"]
    coercion_idempotent [of parse_decimal "[Num (271 / 10), NaN, Num 0]"]
  by simp

text \<open>
  Claim C9. The fill replaces a missing cell of any column by the number 0 and leaves
  every other cell; in a column outside \<open>numeric_columns\<close>, such as \<open>Team\<close> or
  \<open>Position\<close>, the final frame holds that 0 where a text was expected.
\<close>

theorem fill_all_columns:
  assumes "i < length (rows df)" and "map_of (rows df ! i) col = Some v"
  shows "map_of (rows (fillna df) ! i) col = Some (if v = NaN then Num 0 else v) \<and>
         (col \<notin> set numeric_columns \<longrightarrow>
            map_of (rows (coerce_numeric_columns parse (fillna df)) ! i) col =
              Some (if v = NaN then Num 0 else v))"
proof -
  have fz: "fill_zero v = (if v = NaN then Num 0 else v)"
    by (cases v) simp_all
  have a: "map_of (rows (fillna df) ! i) col = Some (fill_zero v)"
    using assms by (simp add: fillna_def map_of_fill)
  have b: "col \<notin> set numeric_columns \<Longrightarrow>
      map_of (rows (coerce_numeric_columns parse (fillna df)) ! i) col = Some (fill_zero v)"
    using assms by (simp add: rows_cleanup map_of_coerce_row map_of_fill)
  from a b show ?thesis
    unfolding fz by blast
qed

theorem fill_all_columns_witness:
  "1 < length (rows (concat_frames (collect_seasons example_site [2022]))) \<and>
   map_of (rows (concat_frames (collect_seasons example_site [2022])) ! 1) ''Team'' = Some NaN \<and>
   ''Team'' \<notin> set numeric_columns \<and>
   map_of (rows (fillna (concat_frames (collect_seasons example_site [2022]))) ! 1) ''Team''
     = Some (Num 0) \<and>
   map_of (rows (coerce_numeric_columns parse_decimal
                   (fillna (concat_frames (collect_seasons example_site [2022])))) ! 1) ''Team''
     = Some (Num 0) \<and>
   result_column (scrape_all_seasons parse_decimal example_site 2022 2022) ''Team''
     = [Str ''DEN'', Num 0]"
proof -
  have h1: "1 < length (rows (concat_frames (collect_seasons example_site [2022])))"
    by code_simp
  have h2: "map_of (rows (concat_frames (collect_seasons example_site [2022])) ! 1) ''Team'' = Some NaN"
    by code_simp
  have h3: "''Team'' \<notin> set numeric_columns"
    by code_simp
  have h4: "result_column (scrape_all_seasons parse_decimal example_site 2022 2022) ''Team''
     = [Str ''DEN'', Num 0]"
    by code_simp
  show ?thesis
    using h1 h2 h3 h4 fill_all_columns [OF h1 h2, of parse_decimal] by simp
qed

section \<open>The stages of a season\<close>

text \<open>
  Claim C3, as the code has it. The award-tracking scraper looks the winner up first:
  its stages run in the order award page, basic page, advanced page, merge, and the
  single-season scraper runs basic page, advanced page, merge. A stage that fails is the
  last one to run, and the season has no result.
\<close>

theorem scrape_season_order:
  "snd (scrape_season web year) =
     (if fst (get_mvp_winner web year) = None then [Fetch Awards year]
      else if fst (get_basic_stats web year) = None then [Fetch Awards year, Fetch PerGame year]
      else if fst (get_advanced_stats web year) = None
        then [Fetch Awards year, Fetch PerGame year, Fetch Advanced year]
      else [Fetch Awards year, Fetch PerGame year, Fetch Advanced year, Merge year]) \<and>
   snd (scrape_season_2025 web year) =
     (if fst (get_basic_stats web year) = None then [Fetch PerGame year]
      else if fst (get_advanced_stats web year) = None then [Fetch PerGame year, Fetch Advanced year]
      else [Fetch PerGame year, Fetch Advanced year, Merge year]) \<and>
   (fst (get_mvp_winner web year) = None \<or> fst (get_basic_stats web year) = None \<or>
    fst (get_advanced_stats web year) = None \<longrightarrow> fst (scrape_season web year) = None) \<and>
   (fst (get_basic_stats web year) = None \<or> fst (get_advanced_stats web year) = None
      \<longrightarrow> fst (scrape_season_2025 web year) = None)"
proof -
  have m: "snd (get_mvp_winner web year) = [Fetch Awards year]"
    by (simp add: get_mvp_winner_def get_page_content_def split: option.splits)
  have b: "snd (get_basic_stats web year) = [Fetch PerGame year]"
    by (simp add: get_basic_stats_def get_page_content_def split: option.splits)
  have a: "snd (get_advanced_stats web year) = [Fetch Advanced year]"
    by (simp add: get_advanced_stats_def get_page_content_def split: option.splits)
  obtain mr me where M: "get_mvp_winner web year = (mr, me)"
    by (cases "get_mvp_winner web year")
  obtain br be where B: "get_basic_stats web year = (br, be)"
    by (cases "get_basic_stats web year")
  obtain ar ae where A: "get_advanced_stats web year = (ar, ae)"
    by (cases "get_advanced_stats web year")
  from m b a M B A
  have E: "me = [Fetch Awards year]" "be = [Fetch PerGame year]" "ae = [Fetch Advanced year]"
    by simp_all
  show ?thesis
    by (simp add: scrape_season_def scrape_season_2025_def M B A E split: option.splits)
qed

theorem scrape_season_order_witness:
  "fst (get_mvp_winner example_site 2023) = None \<and>
   snd (scrape_season example_site 2023) = [Fetch Awards 2023] \<and>
   fst (scrape_season example_site 2023) = None \<and>
   snd (scrape_season_2025 example_site 2023) = [Fetch PerGame 2023, Fetch Advanced 2023, Merge 2023]"
proof -
  have h1: "fst (get_mvp_winner example_site 2023) = None"
    by code_simp
  have h2: "fst (get_basic_stats example_site 2023) \<noteq> None"
    by code_simp
  have h3: "fst (get_advanced_stats example_site 2023) \<noteq> None"
    by code_simp
  show ?thesis
    using h1 h2 h3 scrape_season_order [of example_site 2023] by simp
qed

text \<open>
  Claim C3, as stated, fails: in 2022, where every stage succeeds, the award page is
  fetched before the basic page, not after the advanced page; in 2023, where the award
  page cannot be fetched, the basic page is never asked for.
\<close>

theorem award_fetched_first_counterexample:
  "snd (scrape_season example_site 2022)
     = [Fetch Awards 2022, Fetch PerGame 2022, Fetch Advanced 2022, Merge 2022] \<and>
   snd (scrape_season example_site 2023) = [Fetch Awards 2023]"
  by code_simp

section \<open>The rows a table keeps\<close>

lemma str_contains_sublist: "str_contains pat s = sublist pat s"
  by (induction s) (simp_all add: sublist_Cons_right)

text \<open>
  The row filter as a whole. It succeeds when the frame has the column \<open>Player\<close>, the
  column holds no number and, unless the frame has no row, holds a text; it then keeps,
  in order, the rows whose \<open>Player\<close> is a text in which \<open>Player\<close> does not occur.
\<close>

lemma drop_non_data_rows_eq:
  "drop_non_data_rows df =
     (if ''Player'' \<in> set (columns df) \<and>
         \<not> list_ex (\<lambda>r. is_num (cell_of r ''Player'')) (rows df) \<and>
         (rows df = [] \<or> list_ex (\<lambda>r. is_str (cell_of r ''Player'')) (rows df))
      then Some (df\<lparr>rows := filter (\<lambda>r. case cell_of r ''Player'' of
                                          Str s \<Rightarrow> \<not> sublist ''Player'' s
                                        | _ \<Rightarrow> False) (rows df)\<rparr>)
      else None)"
proof -
  have eq: "(notna (cell_of r ''Player'') \<and>
             series_str_contains ''Player'' (cell_of r ''Player'') = Some False)
      = (case cell_of r ''Player'' of Str s \<Rightarrow> \<not> sublist ''Player'' s | _ \<Rightarrow> False)" for r
    by (cases "cell_of r ''Player''") (simp_all add: notna_def str_contains_sublist)
  have num: "(notna (cell_of r ''Player'') \<and>
              series_str_contains ''Player'' (cell_of r ''Player'') = None)
      = is_num (cell_of r ''Player'')" for r
    by (cases "cell_of r ''Player''") (simp_all add: notna_def)
  have ex: "list_ex (\<lambda>r. series_str_contains ''Player'' (cell_of r ''Player'') = None)
              (filter (\<lambda>r. notna (cell_of r ''Player'')) (rows df))
            = list_ex (\<lambda>r. is_num (cell_of r ''Player'')) (rows df)"
    unfolding list_ex_iff set_filter using num by blast
  have obj: "object_dtype (column df ''Player'')
            = (rows df = [] \<or> list_ex (\<lambda>r. is_str (cell_of r ''Player'')) (rows df))"
    by (simp add: object_dtype_def column_def list_ex_iff)
  have flt: "filter (\<lambda>r. series_str_contains ''Player'' (cell_of r ''Player'') = Some False)
               (filter (\<lambda>r. notna (cell_of r ''Player'')) (rows df))
           = filter (\<lambda>r. case cell_of r ''Player'' of Str s \<Rightarrow> \<not> sublist ''Player'' s | _ \<Rightarrow> False)
               (rows df)"
    unfolding filter_filter using eq by (intro filter_cong refl) (simp add: conj_commute)
  have "drop_non_data_rows df =
     (if ''Player'' \<notin> set (columns df) then None
      else if \<not> object_dtype (column df ''Player'') then None
      else if list_ex (\<lambda>r. series_str_contains ''Player'' (cell_of r ''Player'') = None)
                (filter (\<lambda>r. notna (cell_of r ''Player'')) (rows df))
           then None
      else Some (df\<lparr>rows := filter (\<lambda>r. series_str_contains ''Player'' (cell_of r ''Player'') = Some False)
                                (filter (\<lambda>r. notna (cell_of r ''Player'')) (rows df))\<rparr>))"
    by (simp add: drop_non_data_rows_def Let_def)
  then show ?thesis
    unfolding ex obj flt by (simp only: if_splits) auto
qed

text \<open>
  Claim C4. The extractor is to drop exactly the rows whose \<open>Player\<close> is missing or is
  the repeated-header marker, and to keep every other row. The code breaks the claim: it
  tests whether \<open>Player\<close> contains the marker. The last row of this table is of the
  player \<open>Scott Playerson\<close>, whose name is not empty and is not the marker, and it is
  dropped with the header row and the row without a player.
\<close>

theorem name_containing_marker_dropped:
  "column roster_with_playerson ''Player''
     = [Str ''Nikola Jokic'', Str ''Player'', NaN, Str ''Scott Playerson''] \<and>
   map_option rows (drop_non_data_rows roster_with_playerson)
     = Some [[(''Player'', Str ''Nikola Jokic''), (''PTS'', Str ''27.1'')]]"
  by code_simp

section \<open>The merge of a season\<close>

lemma drop_non_data_rows_columns:
  "drop_non_data_rows df = Some df1 \<Longrightarrow> columns df1 = columns df \<and> ''Player'' \<in> set (columns df)"
  by (auto simp add: drop_non_data_rows_eq split: if_splits)

lemma drop_non_data_rows_player:
  assumes "drop_non_data_rows df = Some df1" and "r \<in> set (rows df1)"
  shows "\<exists>s. map_of r ''Player'' = Some (Str s)"
proof -
  from assms have "case cell_of r ''Player'' of Str s \<Rightarrow> \<not> sublist ''Player'' s | _ \<Rightarrow> False"
    by (auto simp add: drop_non_data_rows_eq split: if_splits)
  then obtain s where "cell_of r ''Player'' = Str s"
    by (cases "cell_of r ''Player''") simp_all
  then show ?thesis
    by (cases "map_of r ''Player''") (simp_all add: cell_of_def)
qed

lemma map_of_rename_keys:
  "c \<noteq> old_col \<Longrightarrow> c \<noteq> new_col \<Longrightarrow>
     map_of (map (\<lambda>(k, v). (if k = old_col then new_col else k, v)) r) c = map_of r c"
  by (induction r) auto

lemma rename_columns_keeps:
  "c \<in> set (columns df) \<Longrightarrow> c \<notin> fst ` set m \<Longrightarrow> c \<in> set (columns (rename_columns m df))"
proof (induction m arbitrary: df)
  case Nil
  then show ?case by simp
next
  case (Cons p m)
  obtain old_col new_col where p: "p = (old_col, new_col)" by (cases p)
  from Cons.prems p have ne: "c \<noteq> old_col" and rest: "c \<notin> fst ` set m"
    by auto
  have "c \<in> set (columns (if old_col \<in> set (columns df) then rename_column old_col new_col df else df))"
    using Cons.prems(1) ne by (auto simp add: rename_column_def)
  then show ?case
    unfolding p using rest by (simp add: Cons.IH)
qed

lemma rename_columns_cells:
  "\<forall>r \<in> set (rows df). P (map_of r c) \<Longrightarrow> c \<notin> fst ` set m \<Longrightarrow> c \<notin> snd ` set m \<Longrightarrow>
     \<forall>r \<in> set (rows (rename_columns m df)). P (map_of r c)"
proof (induction m arbitrary: df)
  case Nil
  then show ?case by simp
next
  case (Cons p m)
  obtain old_col new_col where p: "p = (old_col, new_col)" by (cases p)
  from Cons.prems p have ne: "c \<noteq> old_col" "c \<noteq> new_col"
    and rest: "c \<notin> fst ` set m" "c \<notin> snd ` set m"
    by auto
  have "\<forall>r \<in> set (rows (if old_col \<in> set (columns df) then rename_column old_col new_col df else df)).
          P (map_of r c)"
    using Cons.prems(1) ne by (auto simp add: rename_column_def map_of_rename_keys)
  then show ?case
    unfolding p using rest by (simp add: Cons.IH)
qed

lemma map_of_filter_key:
  "map_of (filter (\<lambda>(k, v). k = c) r) c0 = (if c0 = c then map_of r c0 else None)"
  by (induction r) auto

lemma map_of_select:
  "map_of (concat (map (\<lambda>c. filter (\<lambda>(k, v). k = c) r) cols)) c0 =
     (if c0 \<in> set cols then map_of r c0 else None)"
  by (induction cols) (auto simp add: map_add_def map_of_filter_key split: option.splits)

lemma keys_select: "fst ` set (concat (map (\<lambda>c. filter (\<lambda>(k, v). k = c) r) cols)) \<subseteq> set cols"
  by auto

lemma normalize_columns_select:
  assumes "normalize_columns m wanted df = Some d"
  shows "d = select_columns (filter (\<lambda>c. c \<in> set (columns (rename_columns m df))) wanted)
               (rename_columns m df)"
  using assms by (auto simp add: normalize_columns_def Let_def split: if_splits)

lemma normalize_columns_shape:
  assumes "normalize_columns m wanted df = Some d"
  shows "set (columns d) = set wanted \<inter> set (columns (rename_columns m df))"
    and "\<forall>r \<in> set (rows d). fst ` set r \<subseteq> set wanted"
proof -
  note d = normalize_columns_select[OF assms]
  show "set (columns d) = set wanted \<inter> set (columns (rename_columns m df))"
    by (subst d) (auto simp add: select_columns_def)
  show "\<forall>r \<in> set (rows d). fst ` set r \<subseteq> set wanted"
  proof
    fix r assume "r \<in> set (rows d)"
    then obtain r0 where
      "r = concat (map (\<lambda>c. filter (\<lambda>(k, v). k = c) r0)
                     (filter (\<lambda>c. c \<in> set (columns (rename_columns m df))) wanted))"
      by (subst (asm) d) (auto simp add: select_columns_def)
    then show "fst ` set r \<subseteq> set wanted"
      using keys_select[of r0 "filter (\<lambda>c. c \<in> set (columns (rename_columns m df))) wanted"]
      by auto
  qed
qed

lemma normalize_columns_cells:
  assumes "normalize_columns m wanted df = Some d" and "c \<in> set (columns d)"
    and "\<forall>r \<in> set (rows (rename_columns m df)). P (map_of r c)"
  shows "\<forall>r \<in> set (rows d). P (map_of r c)"
proof
  fix r assume r: "r \<in> set (rows d)"
  note d = normalize_columns_select[OF assms(1)]
  from assms(2) normalize_columns_shape(1)[OF assms(1)]
  have c: "c \<in> set (filter (\<lambda>c. c \<in> set (columns (rename_columns m df))) wanted)"
    by simp
  from r obtain r0 where r0: "r0 \<in> set (rows (rename_columns m df))" and
    "r = concat (map (\<lambda>c. filter (\<lambda>(k, v). k = c) r0)
                   (filter (\<lambda>c. c \<in> set (columns (rename_columns m df))) wanted))"
    by (subst (asm) d) (auto simp add: select_columns_def)
  then have "map_of r c = map_of r0 c"
    using c by (simp only: map_of_select if_True)
  with assms(3) r0 show "P (map_of r c)"
    by simp
qed

lemma extract_stats_shape:
  assumes "extract_stats m wanted t = Some d" and "''Player'' \<notin> fst ` set m"
    and "''Player'' \<notin> snd ` set m" and "''Player'' \<in> set wanted"
  shows "''Player'' \<in> set (columns d)"
    and "set (columns d) \<subseteq> set wanted"
    and "\<forall>r \<in> set (rows d). fst ` set r \<subseteq> set wanted"
    and "\<forall>r \<in> set (rows d). \<exists>s. map_of r ''Player'' = Some (Str s)"
proof -
  from assms(1) obtain df df1 where rd: "read_html t = Some df"
    and dr: "drop_non_data_rows df = Some df1" and nc: "normalize_columns m wanted df1 = Some d"
    by (auto simp add: extract_stats_def split: option.splits)
  have "''Player'' \<in> set (columns df1)"
    using drop_non_data_rows_columns[OF dr] by simp
  then have pl: "''Player'' \<in> set (columns (rename_columns m df1))"
    using assms(2) by (rule rename_columns_keeps)
  note sh = normalize_columns_shape[OF nc]
  from sh(1) pl assms(4) show c: "''Player'' \<in> set (columns d)"
    by simp
  from sh(1) show "set (columns d) \<subseteq> set wanted"
    by simp
  from sh(2) show "\<forall>r \<in> set (rows d). fst ` set r \<subseteq> set wanted" .
  have "\<forall>r \<in> set (rows df1). \<exists>s. map_of r ''Player'' = Some (Str s)"
    using drop_non_data_rows_player[OF dr] by simp
  then have "\<forall>r \<in> set (rows (rename_columns m df1)). \<exists>s. map_of r ''Player'' = Some (Str s)"
    using assms(2,3) by (rule rename_columns_cells)
  with nc c show "\<forall>r \<in> set (rows d). \<exists>s. map_of r ''Player'' = Some (Str s)"
    by (rule normalize_columns_cells)
qed

lemma basic_mapping_spares_player:
  "''Player'' \<notin> fst ` set basic_column_mapping" "''Player'' \<notin> snd ` set basic_column_mapping"
  "''Player'' \<in> set basic_columns"
  by (simp_all add: basic_column_mapping_def basic_columns_def)

lemma advanced_mapping_spares_player:
  "''Player'' \<notin> fst ` set advanced_column_mapping" "''Player'' \<notin> snd ` set advanced_column_mapping"
  "''Player'' \<in> set advanced_columns"
  by (simp_all add: advanced_column_mapping_def advanced_columns_def)

lemma get_basic_stats_shape:
  assumes "fst (get_basic_stats web year) = Some d"
  shows "''Player'' \<in> set (columns d)"
    and "set (columns d) \<subseteq> set basic_columns"
    and "\<forall>r \<in> set (rows d). fst ` set r \<subseteq> set basic_columns"
    and "\<forall>r \<in> set (rows d). \<exists>s. map_of r ''Player'' = Some (Str s)"
proof -
  from assms obtain t where t: "extract_stats basic_column_mapping basic_columns t = Some d"
    by (auto simp add: get_basic_stats_def get_page_content_def split: option.splits)
  note sh = extract_stats_shape[OF t basic_mapping_spares_player]
  show "''Player'' \<in> set (columns d)" by (rule sh(1))
  show "set (columns d) \<subseteq> set basic_columns" by (rule sh(2))
  show "\<forall>r \<in> set (rows d). fst ` set r \<subseteq> set basic_columns" by (rule sh(3))
  show "\<forall>r \<in> set (rows d). \<exists>s. map_of r ''Player'' = Some (Str s)" by (rule sh(4))
qed

lemma get_advanced_stats_shape:
  assumes "fst (get_advanced_stats web year) = Some d"
  shows "''Player'' \<in> set (columns d)"
    and "set (columns d) \<subseteq> set advanced_columns"
    and "\<forall>r \<in> set (rows d). fst ` set r \<subseteq> set advanced_columns"
    and "\<forall>r \<in> set (rows d). \<exists>s. map_of r ''Player'' = Some (Str s)"
proof -
  from assms obtain t where t: "extract_stats advanced_column_mapping advanced_columns t = Some d"
    by (auto simp add: get_advanced_stats_def get_page_content_def split: option.splits)
  note sh = extract_stats_shape[OF t advanced_mapping_spares_player]
  show "''Player'' \<in> set (columns d)" by (rule sh(1))
  show "set (columns d) \<subseteq> set advanced_columns" by (rule sh(2))
  show "\<forall>r \<in> set (rows d). fst ` set r \<subseteq> set advanced_columns" by (rule sh(3))
  show "\<forall>r \<in> set (rows d). \<exists>s. map_of r ''Player'' = Some (Str s)" by (rule sh(4))
qed

lemma inter_subset_of: "A \<subseteq> B \<Longrightarrow> C \<subseteq> D \<Longrightarrow> B \<inter> D = E \<Longrightarrow> A \<inter> C \<subseteq> E"
  by blast

lemma basic_advanced_overlap: "set basic_columns \<inter> set advanced_columns = {''Player''}"
  by (auto simp add: basic_columns_def advanced_columns_def)

lemma merge_left_plain:
  assumes pl: "''Player'' \<in> set (columns left)" and pr: "''Player'' \<in> set (columns right)"
    and ov: "set (columns left) \<inter> set (columns right) \<subseteq> {''Player''}"
    and keys: "\<forall>a \<in> set (rows left). fst ` set a \<inter> set (columns right) \<subseteq> {''Player''}"
  shows "merge_left left right =
           Some \<lparr>columns = columns left @ filter (\<lambda>c. c \<noteq> ''Player'') (columns right),
                 rows = concat (map (left_join_rows right) (rows left))\<rparr>"
proof -
  define lname where "lname = (\<lambda>c. if c \<noteq> ''Player'' \<and> c \<in> set (columns right) then c @ ''_x'' else c)"
  define rname where "rname = (\<lambda>c. if c \<in> set (columns left) then c @ ''_y'' else c)"
  define rcols where "rcols = filter (\<lambda>c. c \<noteq> ''Player'') (columns right)"
  have ln: "lname c = c" if "c \<in> set (columns left)" for c
    using ov that by (auto simp add: lname_def)
  have rn: "rname c = c" if "c \<in> set rcols" for c
    using ov that by (auto simp add: rname_def rcols_def)
  have lcols: "map lname (columns left) = columns left"
    using ln by (simp add: map_idI)
  have rcols': "map rname rcols = rcols"
    using rn by (simp add: map_idI)
  have lpart: "map (\<lambda>(k, v). (lname k, v)) a = a" if a: "a \<in> set (rows left)" for a
  proof (rule map_idI)
    fix p assume p: "p \<in> set a"
    then have "fst p \<in> fst ` set a" by simp
    with a keys have "fst p \<in> set (columns right) \<Longrightarrow> fst p = ''Player''"
      by blast
    then have "lname (fst p) = fst p"
      by (auto simp add: lname_def)
    then show "(case p of (k, v) \<Rightarrow> (lname k, v)) = p"
      by (cases p) simp
  qed
  have rpart: "map (\<lambda>c. (rname c, f c)) rcols = map (\<lambda>c. (c, f c)) rcols" for f
    using rn by (intro map_cong) auto
  have roweq: "(case filter (\<lambda>b. cell_of b ''Player'' = cell_of a ''Player'') (rows right) of
         [] \<Rightarrow> [map (\<lambda>(k, v). (lname k, v)) a @ map (\<lambda>c. (rname c, NaN)) rcols]
       | ms \<Rightarrow> map (\<lambda>b. map (\<lambda>(k, v). (lname k, v)) a @ map (\<lambda>c. (rname c, cell_of b c)) rcols) ms)
      = left_join_rows right a" if "a \<in> set (rows left)" for a
    unfolding left_join_rows_def matches_def rcols_def[symmetric]
    using that by (simp add: lpart rpart split: list.split)
  have "merge_left left right =
     Some \<lparr>columns = map lname (columns left) @ map rname rcols,
       rows = concat (map (\<lambda>a.
          (case filter (\<lambda>b. cell_of b ''Player'' = cell_of a ''Player'') (rows right) of
             [] \<Rightarrow> [map (\<lambda>(k, v). (lname k, v)) a @ map (\<lambda>c. (rname c, NaN)) rcols]
           | ms \<Rightarrow> map (\<lambda>b. map (\<lambda>(k, v). (lname k, v)) a @ map (\<lambda>c. (rname c, cell_of b c)) rcols) ms))
        (rows left))\<rparr>"
    unfolding merge_left_def Let_def lname_def rname_def rcols_def using pl pr by simp
  also have "map (\<lambda>a.
          (case filter (\<lambda>b. cell_of b ''Player'' = cell_of a ''Player'') (rows right) of
             [] \<Rightarrow> [map (\<lambda>(k, v). (lname k, v)) a @ map (\<lambda>c. (rname c, NaN)) rcols]
           | ms \<Rightarrow> map (\<lambda>b. map (\<lambda>(k, v). (lname k, v)) a @ map (\<lambda>c. (rname c, cell_of b c)) rcols) ms))
        (rows left) = map (left_join_rows right) (rows left)"
    using roweq by (intro map_cong) auto
  finally show ?thesis
    using rcols' by (simp add: lcols rcols_def)
qed

lemma merge_extracted:
  assumes "fst (get_basic_stats web year) = Some basic"
    and "fst (get_advanced_stats web year) = Some adv"
  shows "merge_left basic adv =
           Some \<lparr>columns = columns basic @ filter (\<lambda>c. c \<noteq> ''Player'') (columns adv),
                 rows = concat (map (left_join_rows adv) (rows basic))\<rparr>"
proof -
  note b = get_basic_stats_shape[OF assms(1)] and a = get_advanced_stats_shape[OF assms(2)]
  have ov: "set (columns basic) \<inter> set (columns adv) \<subseteq> {''Player''}"
    using b(2) a(2) basic_advanced_overlap by (rule inter_subset_of)
  have keys: "\<forall>r \<in> set (rows basic). fst ` set r \<inter> set (columns adv) \<subseteq> {''Player''}"
  proof
    fix r assume "r \<in> set (rows basic)"
    with b(3) have "fst ` set r \<subseteq> set basic_columns"
      by (rule bspec)
    then show "fst ` set r \<inter> set (columns adv) \<subseteq> {''Player''}"
      using a(2) basic_advanced_overlap by (rule inter_subset_of)
  qed
  from b(1) a(1) ov keys show ?thesis
    by (rule merge_left_plain)
qed


lemma left_join_rows_prefix: "m \<in> set (left_join_rows right a) \<Longrightarrow> prefix a m"
  by (auto simp add: left_join_rows_def split: list.splits)


lemma left_join_rows_nonempty: "left_join_rows right a \<noteq> []"
  by (simp add: left_join_rows_def split: list.split)




lemma cell_of_prefix:
  "prefix a m \<Longrightarrow> c \<in> fst ` set a \<Longrightarrow> cell_of m c = cell_of a c"
  by (auto simp add: prefix_def cell_of_def map_add_def map_of_eq_None_iff split: option.splits)






section \<open>The aggregate\<close>

lemma collect_seasons_Nil_iff:
  "collect_seasons web years = [] \<longleftrightarrow> (\<forall>y \<in> set years. fst (scrape_season web y) = None)"
  by (induction years) (auto split: option.splits)

text \<open>
  Claim C7. The aggregator returns nothing exactly when no season of the range
  succeeds.
\<close>

theorem no_data_collected:
  "(scrape_all_seasons parse web start_year end_year = None) =
     (\<forall>year \<in> {start_year..end_year}. fst (scrape_season web year) = None)"
  by (simp add: scrape_all_seasons_def Let_def collect_seasons_Nil_iff)

theorem no_data_collected_witness:
  "list_all (\<lambda>year. fst (scrape_season example_site year) = None) [2019..2021] \<and>
   scrape_all_seasons parse_decimal example_site 2019 2021 = None"
proof -
  have h: "list_all (\<lambda>year. fst (scrape_season example_site year) = None) [2019..2021]"
    by code_simp
  then have h': "\<forall>year \<in> {2019..2021}. fst (scrape_season example_site year) = None"
    by (simp only: list_all_iff set_upto)
  show ?thesis
    using h h' no_data_collected [of parse_decimal example_site 2019 2021] by blast
qed

lemma scrape_season_Some:
  assumes "fst (scrape_season web year) = Some d"
  shows "\<exists>w basic adv merged. fst (get_mvp_winner web year) = Some w \<and>
           fst (get_basic_stats web year) = Some basic \<and>
           fst (get_advanced_stats web year) = Some adv \<and>
           merge_left basic adv = Some merged \<and>
           d = stamp_season year
                 (set_column ''MVP'' (map (mvp_flag w) (column merged ''Player'')) merged)"
proof -
  obtain mr me where M: "get_mvp_winner web year = (mr, me)"
    by (cases "get_mvp_winner web year")
  obtain br be where B: "get_basic_stats web year = (br, be)"
    by (cases "get_basic_stats web year")
  obtain ar ae where A: "get_advanced_stats web year = (ar, ae)"
    by (cases "get_advanced_stats web year")
  from assms show ?thesis
    by (auto simp add: scrape_season_def M B A split: option.splits)
qed

lemma rows_flagged:
  "rows (stamp_season year (set_column ''MVP'' (map (mvp_flag w) (column merged ''Player'')) merged))
     = map (\<lambda>m. AList.update ''Season'' (Num (of_int year))
                  (AList.update ''MVP'' (mvp_flag w (cell_of m ''Player'')) m)) (rows merged)"
proof -
  have a: "rows (set_column ''MVP'' (map (mvp_flag w) (column merged ''Player'')) merged)
      = map (\<lambda>m. AList.update ''MVP'' (mvp_flag w (cell_of m ''Player'')) m) (rows merged)"
    using rows_set_column_map[of "''MVP''" "\<lambda>m. mvp_flag w (cell_of m ''Player'')" merged]
    by (simp add: column_def comp_def)
  show ?thesis
    unfolding stamp_season_def
    using rows_set_column_map[of "''Season''" "\<lambda>r. Num (of_int year)"
        "set_column ''MVP'' (map (mvp_flag w) (column merged ''Player'')) merged"]
    by (simp add: a comp_def)
qed

lemma columns_flagged:
  "''MVP'' \<in> set (columns (stamp_season year (set_column ''MVP'' vals merged))) \<and>
   ''Season'' \<in> set (columns (stamp_season year (set_column ''MVP'' vals merged)))"
  by (simp add: stamp_season_def set_column_def)

lemma season_frame_cells:
  assumes "fst (scrape_season web year) = Some d"
  shows "''MVP'' \<in> set (columns d) \<and> ''Season'' \<in> set (columns d) \<and>
         (\<forall>r \<in> set (rows d). map_of r ''Season'' = Some (Num (of_int year)) \<and>
            (map_of r ''MVP'' = Some (Num 0) \<or> map_of r ''MVP'' = Some (Num 1)))"
proof -
  from scrape_season_Some[OF assms] obtain w merged where
    d: "d = stamp_season year (set_column ''MVP'' (map (mvp_flag w) (column merged ''Player'')) merged)"
    by blast
  show ?thesis
    unfolding d by (auto simp add: columns_flagged rows_flagged update_conv' mvp_flag_def)
qed

lemma set_ordered_union: "set (ordered_union cs) = set cs"
  by (induction cs rule: ordered_union.induct) auto

lemma map_of_reindex_row:
  "map_of (reindex_row cols r) c = (if c \<in> set cols then Some (cell_of r c) else None)"
  by (induction cols) (auto simp add: reindex_row_def)

lemma map_of_output_row:
  assumes "c \<in> set cols"
  shows "map_of (output_row parse cols r) c =
           Some (if c \<in> set numeric_columns then coerce parse (fill_zero (cell_of r c))
                 else fill_zero (cell_of r c))"
  using assms
  by (simp add: output_row_def map_of_coerce_row map_of_fill map_of_reindex_row cell_of_def)

lemma columns_concat_frames: "set (columns (concat_frames dfs)) = (\<Union>d \<in> set dfs. set (columns d))"
  by (simp add: concat_frames_def Let_def set_ordered_union)

lemma rows_concat_frames:
  "rows (concat_frames dfs) =
     concat (map (\<lambda>d. map (reindex_row (columns (concat_frames dfs))) (rows d)) dfs)"
  by (simp add: concat_frames_def Let_def)

lemma concat_collect_seasons:
  "concat (map (\<lambda>d. map f (rows d)) (collect_seasons web years)) =
     concat (map (\<lambda>y. map f (season_rows web y)) years)"
  by (induction years) (auto simp add: season_rows_def split: option.splits)

lemma set_collect_seasons:
  "set (collect_seasons web years) = {d. \<exists>y \<in> set years. fst (scrape_season web y) = Some d}"
  by (induction years) (auto split: option.splits)

lemma scrape_all_seasons_rows:
  assumes "scrape_all_seasons parse web start_year end_year = Some df"
  shows "rows df = concat (map (\<lambda>y. map (output_row parse (columns df)) (season_rows web y))
                             [start_year..end_year])"
    and "set (columns df) = (\<Union>d \<in> set (collect_seasons web [start_year..end_year]). set (columns d))"
proof -
  let ?all = "collect_seasons web [start_year..end_year]"
  from assms have df: "df = coerce_numeric_columns parse (fillna (concat_frames ?all))"
    by (simp add: scrape_all_seasons_def Let_def split: if_splits)
  have cols: "columns df = columns (concat_frames ?all)"
    by (simp add: df columns_cleanup)
  show "set (columns df) = (\<Union>d \<in> set ?all. set (columns d))"
    by (simp add: cols columns_concat_frames)
  have "rows df = map (\<lambda>r. coerce_row parse (columns df) numeric_columns (map (\<lambda>(k, v). (k, fill_zero v)) r))
                    (rows (concat_frames ?all))"
    unfolding cols by (simp add: df rows_cleanup)
  also have "\<dots> = concat (map (\<lambda>d. map (output_row parse (columns df)) (rows d)) ?all)"
    by (subst rows_concat_frames) (simp add: map_concat comp_def output_row_def[abs_def] cols)
  also have "\<dots> = concat (map (\<lambda>y. map (output_row parse (columns df)) (season_rows web y))
                             [start_year..end_year])"
    by (rule concat_collect_seasons)
  finally show "rows df = concat (map (\<lambda>y. map (output_row parse (columns df)) (season_rows web y))
                             [start_year..end_year])" .
qed

lemma season_rows_mem:
  "r0 \<in> set (season_rows web y) \<Longrightarrow> \<exists>d. fst (scrape_season web y) = Some d \<and> r0 \<in> set (rows d)"
  by (cases "fst (scrape_season web y)") (simp_all add: season_rows_def)

lemma aggregate_row_origin:
  assumes "scrape_all_seasons parse web start_year end_year = Some df" and "r \<in> set (rows df)"
  shows "\<exists>y d r0. y \<in> {start_year..end_year} \<and> fst (scrape_season web y) = Some d \<and>
           r0 \<in> set (rows d) \<and> set (columns d) \<subseteq> set (columns df) \<and>
           r = output_row parse (columns df) r0"
proof -
  from assms(2) scrape_all_seasons_rows(1)[OF assms(1)]
  obtain y r0 where y: "y \<in> set [start_year..end_year]" and r0: "r0 \<in> set (season_rows web y)"
    and r: "r = output_row parse (columns df) r0"
    by auto
  from season_rows_mem[OF r0] obtain d where d: "fst (scrape_season web y) = Some d"
    and rd: "r0 \<in> set (rows d)"
    by blast
  from y d have "d \<in> set (collect_seasons web [start_year..end_year])"
    unfolding set_collect_seasons by blast
  with scrape_all_seasons_rows(2)[OF assms(1)] have "set (columns d) \<subseteq> set (columns df)"
    by blast
  with y d rd r show ?thesis
    by auto
qed

lemma map_const_replicate: "(\<forall>x \<in> set xs. f x = c) \<Longrightarrow> map f xs = replicate (length xs) c"
  by (induction xs) auto

lemma sorted_concat_replicate:
  "sorted ys \<Longrightarrow> sorted (concat (map (\<lambda>y. replicate (n y) (of_int y :: rat)) ys))"
  by (induction ys) (auto simp add: sorted_append)

text \<open>
  Claim C6. The rows of the aggregate are the rows of the seasons of the range, season
  after season in ascending years and within a season in the order of its merged
  records, each row laid out on the columns of the aggregate and cleaned; a failed
  season contributes no row. So the \<open>Season\<close> column is a run of each year in turn, and
  it ascends.
\<close>

theorem aggregate_order:
  assumes "scrape_all_seasons parse web start_year end_year = Some df"
  shows "rows df = concat (map (\<lambda>y. map (output_row parse (columns df)) (season_rows web y))
                             [start_year..end_year]) \<and>
         map (\<lambda>r. cell_of r ''Season'') (rows df) =
           concat (map (\<lambda>y. replicate (length (season_rows web y)) (Num (of_int y)))
                     [start_year..end_year]) \<and>
         sorted (map season_number (rows df))"
proof -
  note rows = scrape_all_seasons_rows(1)[OF assms]
  have blk: "map (\<lambda>r. cell_of (output_row parse (columns df) r) ''Season'') (season_rows web y)
               = replicate (length (season_rows web y)) (Num (of_int y))"
    if y: "y \<in> set [start_year..end_year]" for y
  proof (rule map_const_replicate, rule ballI)
    fix r0 assume r0: "r0 \<in> set (season_rows web y)"
    from season_rows_mem[OF r0] obtain d where d: "fst (scrape_season web y) = Some d"
      and rd: "r0 \<in> set (rows d)"
      by blast
    from y d have "d \<in> set (collect_seasons web [start_year..end_year])"
      unfolding set_collect_seasons by blast
    with scrape_all_seasons_rows(2)[OF assms] season_frame_cells[OF d]
    have c: "''Season'' \<in> set (columns df)"
      by blast
    from season_frame_cells[OF d] rd have "cell_of r0 ''Season'' = Num (of_int y)"
      by (simp add: cell_of_def)
    then show "cell_of (output_row parse (columns df) r0) ''Season'' = Num (of_int y)"
      using map_of_output_row[OF c, of parse r0]
      by (simp add: cell_of_def numeric_columns_def)
  qed
  have seasons: "map (\<lambda>r. cell_of r ''Season'') (rows df) =
           concat (map (\<lambda>y. replicate (length (season_rows web y)) (Num (of_int y)))
                     [start_year..end_year])"
    unfolding rows map_concat map_map comp_def
    using blk by (intro arg_cong[where f = concat] map_cong) simp_all
  have "map season_number (rows df) =
          map (\<lambda>c. case c of Num x \<Rightarrow> x | _ \<Rightarrow> 0) (map (\<lambda>r. cell_of r ''Season'') (rows df))"
    by (simp add: season_number_def comp_def)
  also have "\<dots> = concat (map (\<lambda>y. replicate (length (season_rows web y)) (of_int y))
                           [start_year..end_year])"
    unfolding seasons by (simp add: map_concat comp_def)
  finally have "sorted (map season_number (rows df))"
    by (simp add: sorted_concat_replicate)
  with rows seasons show ?thesis
    by blast
qed

theorem aggregate_order_witness:
  "scrape_all_seasons parse_decimal example_site 2024 2025
     = Some (frame_of (scrape_all_seasons parse_decimal example_site 2024 2025)) \<and>
   map (\<lambda>r. cell_of r ''Season'')
       (rows (frame_of (scrape_all_seasons parse_decimal example_site 2024 2025)))
     = concat (map (\<lambda>y. replicate (length (season_rows example_site y)) (Num (of_int y)))
                 [2024..2025]) \<and>
   sorted (map season_number
             (rows (frame_of (scrape_all_seasons parse_decimal example_site 2024 2025)))) \<and>
   result_column (scrape_all_seasons parse_decimal example_site 2024 2025) ''Season''
     = [Num 2024, Num 2024, Num 2024, Num 2025, Num 2025] \<and>
   result_column (scrape_all_seasons parse_decimal example_site 2024 2025) ''Player''
     = [Str ''James Harden'', Str ''James Harden'', Str ''Jalen Brunson'',
        Str ''Nikola Jokic'', Str ''Joel Embiid'']"
proof -
  have h: "scrape_all_seasons parse_decimal example_site 2024 2025
             = Some (frame_of (scrape_all_seasons parse_decimal example_site 2024 2025))"
    by code_simp
  have e1: "result_column (scrape_all_seasons parse_decimal example_site 2024 2025) ''Season''
     = [Num 2024, Num 2024, Num 2024, Num 2025, Num 2025]"
    by code_simp
  have e2: "result_column (scrape_all_seasons parse_decimal example_site 2024 2025) ''Player''
     = [Str ''James Harden'', Str ''James Harden'', Str ''Jalen Brunson'',
        Str ''Nikola Jokic'', Str ''Joel Embiid'']"
    by code_simp
  show ?thesis
    using h e1 e2 aggregate_order [OF h] by blast
qed

text \<open>
  Claim C5. When the winner of a year cannot be looked up, the season of that year has
  no result and no merged records; whatever the range, no row of the aggregate is of
  that year, the aggregate has the column \<open>MVP\<close>, and every row holds 0 or 1 there.
\<close>

theorem award_failure_excludes_season:
  assumes "fst (get_mvp_winner web year) = None"
  shows "fst (scrape_season web year) = None \<and> season_rows web year = [] \<and>
         (\<forall>df. scrape_all_seasons parse web start_year end_year = Some df \<longrightarrow>
            ''MVP'' \<in> set (columns df) \<and>
            (\<forall>r \<in> set (rows df).
               (\<exists>y \<in> {start_year..end_year}. y \<noteq> year \<and> map_of r ''Season'' = Some (Num (of_int y))) \<and>
               map_of r ''Season'' \<noteq> Some (Num (of_int year)) \<and>
               (map_of r ''MVP'' = Some (Num 0) \<or> map_of r ''MVP'' = Some (Num 1))))"
proof -
  obtain me where M: "get_mvp_winner web year = (None, me)"
    using assms by (cases "get_mvp_winner web year") auto
  have none: "fst (scrape_season web year) = None"
    by (simp add: scrape_season_def M)
  then have norows: "season_rows web year = []"
    by (simp add: season_rows_def)
  have agg: "''MVP'' \<in> set (columns df) \<and>
            (\<forall>r \<in> set (rows df).
               (\<exists>y \<in> {start_year..end_year}. y \<noteq> year \<and> map_of r ''Season'' = Some (Num (of_int y))) \<and>
               map_of r ''Season'' \<noteq> Some (Num (of_int year)) \<and>
               (map_of r ''MVP'' = Some (Num 0) \<or> map_of r ''MVP'' = Some (Num 1)))"
    if df: "scrape_all_seasons parse web start_year end_year = Some df" for df
  proof
    from df have "collect_seasons web [start_year..end_year] \<noteq> []"
      by (auto simp add: scrape_all_seasons_def Let_def split: if_splits)
    then obtain d where din: "d \<in> set (collect_seasons web [start_year..end_year])"
      by (cases "collect_seasons web [start_year..end_year]") auto
    then obtain y where "fst (scrape_season web y) = Some d"
      unfolding set_collect_seasons by blast
    from season_frame_cells[OF this] din scrape_all_seasons_rows(2)[OF df]
    show "''MVP'' \<in> set (columns df)"
      by blast
  next
    show "\<forall>r \<in> set (rows df).
               (\<exists>y \<in> {start_year..end_year}. y \<noteq> year \<and> map_of r ''Season'' = Some (Num (of_int y))) \<and>
               map_of r ''Season'' \<noteq> Some (Num (of_int year)) \<and>
               (map_of r ''MVP'' = Some (Num 0) \<or> map_of r ''MVP'' = Some (Num 1))"
    proof
      fix r assume "r \<in> set (rows df)"
      from aggregate_row_origin[OF df this] obtain y d r0 where
        y: "y \<in> {start_year..end_year}" and d: "fst (scrape_season web y) = Some d"
        and r0: "r0 \<in> set (rows d)" and sub: "set (columns d) \<subseteq> set (columns df)"
        and r: "r = output_row parse (columns df) r0"
        by blast
      from d none have ne: "y \<noteq> year"
        by auto
      note cells = season_frame_cells[OF d]
      from cells sub have cs: "''Season'' \<in> set (columns df)" and cm: "''MVP'' \<in> set (columns df)"
        by auto
      from cells r0 have s0: "cell_of r0 ''Season'' = Num (of_int y)"
        and m0: "cell_of r0 ''MVP'' = Num 0 \<or> cell_of r0 ''MVP'' = Num 1"
        by (auto simp add: cell_of_def)
      have s: "map_of r ''Season'' = Some (Num (of_int y))"
        unfolding r using map_of_output_row[OF cs, of parse r0] s0
        by (simp add: numeric_columns_def)
      have m: "map_of r ''MVP'' = Some (Num 0) \<or> map_of r ''MVP'' = Some (Num 1)"
        unfolding r using map_of_output_row[OF cm, of parse r0] m0
        by (auto simp add: numeric_columns_def)
      from s ne have "map_of r ''Season'' \<noteq> Some (Num (of_int year))"
        by simp
      with s m y ne show "(\<exists>y \<in> {start_year..end_year}. y \<noteq> year \<and> map_of r ''Season'' = Some (Num (of_int y))) \<and>
               map_of r ''Season'' \<noteq> Some (Num (of_int year)) \<and>
               (map_of r ''MVP'' = Some (Num 0) \<or> map_of r ''MVP'' = Some (Num 1))"
        by blast
    qed
  qed
  from none norows agg show ?thesis
    by blast
qed

theorem award_failure_excludes_season_witness:
  "fst (get_mvp_winner example_site 2023) = None \<and>
   fst (scrape_season example_site 2023) = None \<and>
   scrape_all_seasons parse_decimal example_site 2022 2023
     = Some (frame_of (scrape_all_seasons parse_decimal example_site 2022 2023)) \<and>
   ''MVP'' \<in> set (columns (frame_of (scrape_all_seasons parse_decimal example_site 2022 2023))) \<and>
   list_all (\<lambda>r. map_of r ''Season'' \<noteq> Some (Num (of_int 2023)) \<and>
                 (map_of r ''MVP'' = Some (Num 0) \<or> map_of r ''MVP'' = Some (Num 1)))
     (rows (frame_of (scrape_all_seasons parse_decimal example_site 2022 2023))) \<and>
   result_column (scrape_all_seasons parse_decimal example_site 2022 2023) ''Season''
     = [Num 2022, Num 2022] \<and>
   result_column (scrape_all_seasons parse_decimal example_site 2022 2023) ''MVP''
     = [Num 1, Num 0]"
proof -
  have h: "fst (get_mvp_winner example_site 2023) = None"
    by code_simp
  have hs: "scrape_all_seasons parse_decimal example_site 2022 2023
              = Some (frame_of (scrape_all_seasons parse_decimal example_site 2022 2023))"
    by code_simp
  have e1: "result_column (scrape_all_seasons parse_decimal example_site 2022 2023) ''Season''
     = [Num 2022, Num 2022]"
    by code_simp
  have e2: "result_column (scrape_all_seasons parse_decimal example_site 2022 2023) ''MVP''
     = [Num 1, Num 0]"
    by code_simp
  show ?thesis
    unfolding list_all_iff
    using h hs e1 e2 award_failure_excludes_season [OF h, of parse_decimal 2022 2023] by blast
qed

section \<open>The award flag\<close>

text \<open>
  Claim C10. When the winner is looked up and both tables are extracted, the season
  succeeds although no merged record has the winner's name in \<open>Player\<close> (the merged
  records have the players of the basic records), and every row has the flag 0.
\<close>

theorem unmatched_winner_flags_zero:
  assumes "fst (get_mvp_winner web year) = Some w"
    and "fst (get_basic_stats web year) = Some basic"
    and "fst (get_advanced_stats web year) = Some adv"
    and "Str w \<notin> set (column basic ''Player'')"
  shows "\<exists>merged df. merge_left basic adv = Some merged \<and>
           set (column merged ''Player'') = set (column basic ''Player'') \<and>
           fst (scrape_season web year) = Some df \<and>
           ''MVP'' \<in> set (columns df) \<and>
           length (rows df) = length (rows merged) \<and>
           (\<forall>r \<in> set (rows df). map_of r ''MVP'' = Some (Num 0))"
proof -
  define merged where "merged =
      \<lparr>columns = columns basic @ filter (\<lambda>c. c \<noteq> ''Player'') (columns adv),
       rows = concat (map (left_join_rows adv) (rows basic))\<rparr>"
  define df where "df = stamp_season year
      (set_column ''MVP'' (map (mvp_flag w) (column merged ''Player'')) merged)"
  have m: "merge_left basic adv = Some merged"
    unfolding merged_def using assms(2,3) by (rule merge_extracted)
  note b = get_basic_stats_shape[OF assms(2)]
  have key: "cell_of x ''Player'' = cell_of a ''Player''"
    if a: "a \<in> set (rows basic)" and x: "x \<in> set (left_join_rows adv a)" for a x
  proof -
    from b(4) a have "\<exists>s. map_of a ''Player'' = Some (Str s)"
      by (rule bspec)
    then obtain s where "map_of a ''Player'' = Some (Str s)"
      by blast
    then have "(''Player'', Str s) \<in> set a"
      by (rule map_of_SomeD)
    then have "''Player'' \<in> fst ` set a"
      by (rule rev_image_eqI) simp
    with left_join_rows_prefix[OF x] show ?thesis
      by (rule cell_of_prefix)
  qed
  have players: "set (column merged ''Player'') = set (column basic ''Player'')"
  proof
    show "set (column merged ''Player'') \<subseteq> set (column basic ''Player'')"
      using key by (auto simp add: column_def merged_def)
  next
    show "set (column basic ''Player'') \<subseteq> set (column merged ''Player'')"
    proof
      fix c assume "c \<in> set (column basic ''Player'')"
      then obtain a where a: "a \<in> set (rows basic)" and c: "c = cell_of a ''Player''"
        by (auto simp add: column_def)
      obtain x where x: "x \<in> set (left_join_rows adv a)"
        using left_join_rows_nonempty[of adv a] by (cases "left_join_rows adv a") auto
      from a x have "x \<in> set (rows merged)"
        by (auto simp add: merged_def)
      moreover from key[OF a x] c have "c = cell_of x ''Player''"
        by simp
      ultimately show "c \<in> set (column merged ''Player'')"
        by (auto simp add: column_def)
    qed
  qed
  obtain e1 e2 e3 where "get_mvp_winner web year = (Some w, e1)"
    and "get_basic_stats web year = (Some basic, e2)"
    and "get_advanced_stats web year = (Some adv, e3)"
    using assms(1,2,3)
    by (cases "get_mvp_winner web year"; cases "get_basic_stats web year";
        cases "get_advanced_stats web year") auto
  with m have s: "fst (scrape_season web year) = Some df"
    by (simp add: scrape_season_def df_def)
  have c: "''MVP'' \<in> set (columns df)"
    unfolding df_def using columns_flagged by blast
  have rows: "rows df = map (\<lambda>m. AList.update ''Season'' (Num (of_int year))
                  (AList.update ''MVP'' (mvp_flag w (cell_of m ''Player'')) m)) (rows merged)"
    unfolding df_def by (rule rows_flagged)
  have len: "length (rows df) = length (rows merged)"
    by (simp add: rows)
  have zero: "map_of r ''MVP'' = Some (Num 0)" if "r \<in> set (rows df)" for r
  proof -
    from that rows obtain x where x: "x \<in> set (rows merged)"
      and r: "r = AList.update ''Season'' (Num (of_int year))
                  (AList.update ''MVP'' (mvp_flag w (cell_of x ''Player'')) x)"
      by auto
    from x have "cell_of x ''Player'' \<in> set (column merged ''Player'')"
      by (simp add: column_def)
    with players assms(4) have "cell_of x ''Player'' \<noteq> Str w"
      by auto
    then show ?thesis
      by (simp add: r update_conv' mvp_flag_def)
  qed
  from m players s c len zero show ?thesis
    by blast
qed

theorem unmatched_winner_flags_zero_witness:
  "fst (get_mvp_winner example_site 2024) = Some ''Shai Gilgeous-Alexander'' \<and>
   fst (get_basic_stats example_site 2024) = Some (frame_of (fst (get_basic_stats example_site 2024))) \<and>
   fst (get_advanced_stats example_site 2024)
     = Some (frame_of (fst (get_advanced_stats example_site 2024))) \<and>
   Str ''Shai Gilgeous-Alexander''
     \<notin> set (column (frame_of (fst (get_basic_stats example_site 2024))) ''Player'') \<and>
   (\<exists>df. fst (scrape_season example_site 2024) = Some df \<and> ''MVP'' \<in> set (columns df) \<and>
         (\<forall>r \<in> set (rows df). map_of r ''MVP'' = Some (Num 0))) \<and>
   result_column (fst (scrape_season example_site 2024)) ''MVP'' = [Num 0, Num 0, Num 0]"
proof -
  have h1: "fst (get_mvp_winner example_site 2024) = Some ''Shai Gilgeous-Alexander''"
    by code_simp
  have h2: "fst (get_basic_stats example_site 2024)
              = Some (frame_of (fst (get_basic_stats example_site 2024)))"
    by code_simp
  have h3: "fst (get_advanced_stats example_site 2024)
              = Some (frame_of (fst (get_advanced_stats example_site 2024)))"
    by code_simp
  have h4: "Str ''Shai Gilgeous-Alexander''
              \<notin> set (column (frame_of (fst (get_basic_stats example_site 2024))) ''Player'')"
    by code_simp
  have h5: "result_column (fst (scrape_season example_site 2024)) ''MVP'' = [Num 0, Num 0, Num 0]"
    by code_simp
  show ?thesis
    using h1 h2 h3 h4 h5 unmatched_winner_flags_zero [OF h1 h2 h3 h4] by blast
qed

end
